theory Spec2Isabelle
  imports
    Complex_Main
    "HOL-Library.AList"
    "HOL-Library.Multiset"
    "HOL-Library.Char_ord"
    "HOL-Library.List_Lexorder"
    "HOL-Library.Product_Lexorder"
begin

section \<open>livehttpx: the probing engine of core/checker.py\<close>

text \<open>
  The development embeds \<^verbatim>\<open>SubdomainChecker\<close> (core/checker.py) and the data
  classes of core/models.py. Python dictionaries are association lists in insertion
  order, Python integers are \<open>int\<close>, strings are \<open>string\<close>. Everything the checker
  does to the outside world (HTTP requests, sleeps, the rate limiter gate) is recorded
  in an event trace carried by the checker state, and every exception that
  \<^verbatim>\<open>session.get\<close> may raise is a value of type \<open>exn\<close>.
\<close>

subsection \<open>Data model (core/models.py)\<close>

type_synonym str_dict = "(string \<times> string) list"

record ScanResult =
  url :: string
  host :: string
  status :: int
  scheme :: string
  title :: string
  content_length :: int
  server :: string
  ip_address :: string
  response_time :: rat
  technologies :: "string list"
  redirect_chain :: "string list"
  headers :: str_dict
  cookies :: str_dict
  has_form :: bool
  has_login :: bool
  is_wordpress :: bool
  cms :: string
  waf :: string
  cdn :: string

text \<open>
  \<^verbatim>\<open>ScanConfig\<close> without its five \<^verbatim>\<open>show_*\<close> fields, which only the display
  module reads.
\<close>

record ScanConfig =
  timeout :: int
  max_workers :: int
  match_codes :: "int list"
  verify_ssl :: bool
  rate_limit :: "int option"
  retries :: int
  follow_redirects :: bool
  tech_detection :: bool
  detect_waf :: bool
  detect_cms :: bool
  detect_cdn :: bool
  extract_headers :: bool
  extract_cookies :: bool
  find_forms :: bool
  find_logins :: bool
  random_user_agent :: bool
  custom_user_agent :: "string option"
  custom_headers :: str_dict
  proxy :: "string option"
  exclude_codes :: "int list"
  include_codes :: "int list"
  only_https :: bool
  only_http :: bool

record ScanStats =
  total_checked :: int
  total_found :: int
  start_time :: rat
  end_time :: rat
  status_distribution :: "(int \<times> int) list"
  tech_distribution :: "(string \<times> int) list"
  cms_distribution :: "(string \<times> int) list"
  waf_distribution :: "(string \<times> int) list"

subsection \<open>The outside world\<close>

text \<open>
  The exception classes the \<^verbatim>\<open>except\<close> clauses of \<^verbatim>\<open>check_host\<close> tell apart, in
  the order of the clauses: \<^verbatim>\<open>requests.exceptions.SSLError\<close>, \<^verbatim>\<open>Timeout\<close>,
  \<^verbatim>\<open>ConnectionError\<close>, \<^verbatim>\<open>RequestException\<close>, any other \<^verbatim>\<open>Exception\<close>, and
  \<open>BaseExc\<close> for what is not an \<^verbatim>\<open>Exception\<close> at all (\<^verbatim>\<open>KeyboardInterrupt\<close>,
  \<^verbatim>\<open>SystemExit\<close>), which only a bare \<^verbatim>\<open>except:\<close> catches. An exception is
  classified by the first clause that matches it.
\<close>

datatype exn = SSLError | Timeout | ConnectionError | RequestException | OtherException | BaseExc

record request =
  req_url :: string
  req_timeout :: int
  req_headers :: str_dict
  req_verify :: bool
  req_allow_redirects :: bool

text \<open>
  What the checker reads of a \<^verbatim>\<open>requests.Response\<close>; \<open>elapsed\<close> is the wall-clock
  time the checker measures around the call.
\<close>

record response =
  resp_url :: string
  status_code :: int
  resp_text :: string
  content :: string
  resp_headers :: str_dict
  resp_cookies :: str_dict
  elapsed :: rat

datatype event = RateLimitWait | Request request | Sleep rat

text \<open>
  The collaborators of the checker: the HTTP session (the outcome of a request may depend
  on how many requests were made before it), the random user-agent pool (by draw number)
  and the functions of core/utils.py that \<^verbatim>\<open>check_host\<close> calls. Each of those catches
  its own exceptions or is a regular-expression search over a string.
\<close>

record env =
  session_get :: "request \<Rightarrow> nat \<Rightarrow> exn + response"
  get_random_user_agent :: "nat \<Rightarrow> string"
  get_ip_address :: "string \<Rightarrow> string option"
  extract_title :: "string \<Rightarrow> string"
  detect_technologies :: "string \<Rightarrow> str_dict \<Rightarrow> string list"
  detect_cms_fn :: "string \<Rightarrow> str_dict \<Rightarrow> string"
  detect_waf_fn :: "str_dict \<Rightarrow> string"
  detect_cdn_fn :: "str_dict \<Rightarrow> string"
  detect_forms :: "string \<Rightarrow> bool"
  detect_login_forms :: "string \<Rightarrow> bool"

text \<open>
  The mutable fields of \<^verbatim>\<open>SubdomainChecker\<close>, with the number of requests and of
  random draws made so far and the trace of events.
\<close>

record SubdomainChecker =
  results :: "ScanResult list"
  stats :: ScanStats
  user_agents :: "string list"
  current_user_agent :: nat
  calls :: nat
  draws :: nat
  trace :: "event list"

subsection \<open>Dictionaries and strings\<close>

definition dict_get :: "('k \<times> 'v) list \<Rightarrow> 'k \<Rightarrow> 'v \<Rightarrow> 'v" where
  "dict_get d k dflt = (case map_of d k of None \<Rightarrow> dflt | Some v \<Rightarrow> v)"

fun dict_update :: "('k \<times> 'v) list \<Rightarrow> ('k \<times> 'v) list \<Rightarrow> ('k \<times> 'v) list" where
  "dict_update d [] = d"
| "dict_update d ((k, v) # kvs) = dict_update (AList.update k v d) kvs"

definition lower_char :: "char \<Rightarrow> char" where
  "lower_char c =
     (if CHR ''A'' \<le> c \<and> c \<le> CHR ''Z'' then char_of (of_char c + (32::nat)) else c)"

definition lower :: "string \<Rightarrow> string" where
  "lower s = map lower_char s"

text \<open>Lookup in the case-insensitive dictionary of response headers.\<close>

fun ci_get :: "str_dict \<Rightarrow> string \<Rightarrow> string \<Rightarrow> string" where
  "ci_get [] k dflt = dflt"
| "ci_get ((k', v) # d) k dflt = (if lower k' = lower k then v else ci_get d k dflt)"

text \<open>\<^verbatim>\<open>str.replace(old, new)\<close>: every non-overlapping occurrence, from the left.\<close>

function str_replace :: "string \<Rightarrow> string \<Rightarrow> string \<Rightarrow> string" where
  "str_replace old new s =
     (if old = [] then new @ concat (map (\<lambda>c. c # new) s)
      else if s = [] then []
      else if take (length old) s = old then new @ str_replace old new (drop (length old) s)
      else hd s # str_replace old new (tl s))"
  by pat_completeness auto
termination
  by (relation "measure (\<lambda>(old, new, s). length s)") (auto simp: neq_Nil_conv)

declare str_replace.simps [simp del]

subsection \<open>SubdomainChecker (core/checker.py)\<close>

definition init_checker :: "env \<Rightarrow> rat \<Rightarrow> SubdomainChecker" where
  "init_checker e now =
     \<lparr> results = [],
       stats = \<lparr> total_checked = 0, total_found = 0, start_time = now, end_time = 0,
                 status_distribution = [], tech_distribution = [],
                 cms_distribution = [], waf_distribution = [] \<rparr>,
       user_agents =
         [get_random_user_agent e 0,
          ''Mozilla/5.0 (Windows NT 10.0; Win64; x64) AppleWebKit/537.36'',
          ''Mozilla/5.0 (Macintosh; Intel Mac OS X 10_15_7) AppleWebKit/537.36''],
       current_user_agent = 0,
       calls = 0,
       draws = 1,
       trace = [] \<rparr>"

text \<open>
  \<^verbatim>\<open>_get_next_user_agent\<close>. A custom user agent counts when it is a non-empty string;
  indexing the pool out of range raises \<^verbatim>\<open>IndexError\<close>, an \<^verbatim>\<open>Exception\<close>.
\<close>

definition get_next_user_agent ::
  "env \<Rightarrow> ScanConfig \<Rightarrow> SubdomainChecker \<Rightarrow> (exn + string) \<times> SubdomainChecker" where
  "get_next_user_agent e cfg c =
     (case custom_user_agent cfg of
        Some ua \<Rightarrow>
          if ua \<noteq> [] then (Inr ua, c)
          else if random_user_agent cfg
            then (Inr (get_random_user_agent e (draws c)), c\<lparr>draws := draws c + 1\<rparr>)
          else if current_user_agent c < length (user_agents c)
            then (Inr (user_agents c ! current_user_agent c),
                  c\<lparr>current_user_agent :=
                      (current_user_agent c + 1) mod length (user_agents c)\<rparr>)
          else (Inl OtherException, c)
      | None \<Rightarrow>
          if random_user_agent cfg
            then (Inr (get_random_user_agent e (draws c)), c\<lparr>draws := draws c + 1\<rparr>)
          else if current_user_agent c < length (user_agents c)
            then (Inr (user_agents c ! current_user_agent c),
                  c\<lparr>current_user_agent :=
                      (current_user_agent c + 1) mod length (user_agents c)\<rparr>)
          else (Inl OtherException, c))"

text \<open>
  \<^verbatim>\<open>_rate_limit_wait\<close>: nothing happens when \<^verbatim>\<open>rate_limit\<close> is \<^verbatim>\<open>None\<close> or 0.
  Otherwise the caller passes the gate: it takes the lock, sleeps for as long as the wall
  clock demands and stamps \<^verbatim>\<open>last_request_time\<close>. How long it sleeps depends on real
  time; the trace records that the gate was passed.
\<close>

definition rate_limit_wait :: "ScanConfig \<Rightarrow> SubdomainChecker \<Rightarrow> SubdomainChecker" where
  "rate_limit_wait cfg c =
     (case rate_limit cfg of
        None \<Rightarrow> c
      | Some r \<Rightarrow> if r = 0 then c else c\<lparr>trace := trace c @ [RateLimitWait]\<rparr>)"

definition should_include_status :: "ScanConfig \<Rightarrow> int \<Rightarrow> bool" where
  "should_include_status cfg st =
     (if exclude_codes cfg \<noteq> [] \<and> st \<in> set (exclude_codes cfg) then False
      else if include_codes cfg \<noteq> [] \<and> st \<notin> set (include_codes cfg) then False
      else st \<in> set (match_codes cfg))"

definition checker_extract_headers :: "ScanConfig \<Rightarrow> response \<Rightarrow> str_dict" where
  "checker_extract_headers cfg r =
     (if \<not> extract_headers cfg then []
      else dict_update []
             (filter (\<lambda>(k, v). lower k \<in> set [''server'', ''x-powered-by'', ''x-cdn'',
                                               ''cf-ray'', ''x-sucuri-id''])
                (resp_headers r)))"

definition checker_extract_cookies :: "ScanConfig \<Rightarrow> response \<Rightarrow> str_dict" where
  "checker_extract_cookies cfg r =
     (if \<not> extract_cookies cfg then [] else dict_update [] (resp_cookies r))"

definition time_sleep :: "rat \<Rightarrow> SubdomainChecker \<Rightarrow> SubdomainChecker" where
  "time_sleep d c = c\<lparr>trace := trace c @ [Sleep d]\<rparr>"

definition do_get :: "env \<Rightarrow> request \<Rightarrow> SubdomainChecker \<Rightarrow> (exn + response) \<times> SubdomainChecker" where
  "do_get e rq c =
     (session_get e rq (calls c), c\<lparr>calls := calls c + 1, trace := trace c @ [Request rq]\<rparr>)"

definition mk_request :: "ScanConfig \<Rightarrow> string \<Rightarrow> str_dict \<Rightarrow> bool \<Rightarrow> request" where
  "mk_request cfg u hs v =
     \<lparr> req_url = u, req_timeout = timeout cfg, req_headers = hs, req_verify = v,
       req_allow_redirects = follow_redirects cfg \<rparr>"

text \<open>The result built on lines 142 to 187, with the detections the config enables.\<close>

definition full_result :: "env \<Rightarrow> ScanConfig \<Rightarrow> string \<Rightarrow> string \<Rightarrow> string \<Rightarrow> response \<Rightarrow> ScanResult" where
  "full_result e cfg hst sch u r =
     \<lparr> url = (if follow_redirects cfg then resp_url r else u),
       host = hst,
       status = status_code r,
       scheme = str_replace ''://'' '''' sch,
       title = extract_title e (resp_text r),
       content_length = int (length (content r)),
       server = ci_get (resp_headers r) ''Server'' '''',
       ip_address = (case get_ip_address e hst of None \<Rightarrow> '''' | Some a \<Rightarrow> a),
       response_time = elapsed r,
       technologies =
         (if tech_detection cfg then detect_technologies e (resp_text r) (resp_headers r) else []),
       redirect_chain = [],
       headers = checker_extract_headers cfg r,
       cookies = checker_extract_cookies cfg r,
       has_form = (if find_forms cfg then detect_forms e (resp_text r) else False),
       has_login = (if find_logins cfg then detect_login_forms e (resp_text r) else False),
       is_wordpress = False,
       cms = (if detect_cms cfg then detect_cms_fn e (resp_text r) (resp_headers r) else ''''),
       waf = (if detect_waf cfg then detect_waf_fn e (resp_headers r) else ''''),
       cdn = (if detect_cdn cfg then detect_cdn_fn e (resp_headers r) else '''') \<rparr>"

text \<open>The reduced result of the fallback without verification (lines 202 to 210).\<close>

definition fallback_result :: "env \<Rightarrow> ScanConfig \<Rightarrow> string \<Rightarrow> string \<Rightarrow> response \<Rightarrow> ScanResult" where
  "fallback_result e cfg hst u r =
     \<lparr> url = (if follow_redirects cfg then resp_url r else u),
       host = hst,
       status = status_code r,
       scheme = ''https'',
       title = extract_title e (resp_text r),
       content_length = int (length (content r)),
       server = ci_get (resp_headers r) ''Server'' '''',
       ip_address = '''',
       response_time = 0,
       technologies = [],
       redirect_chain = [],
       headers = [],
       cookies = [],
       has_form = False,
       has_login = False,
       is_wordpress = False,
       cms = '''',
       waf = '''',
       cdn = '''' \<rparr>"

text \<open>How one pass through the body of the attempt loop ends.\<close>

datatype 'a step = Return 'a | Continue

text \<open>
  The \<^verbatim>\<open>try\<close> block up to the response (lines 123 to 135): the outcome of the request,
  the headers it was sent with (empty when the user agent could not be obtained, a case
  no clause that reads them handles) and the new state.
\<close>

definition try_request ::
  "env \<Rightarrow> ScanConfig \<Rightarrow> string \<Rightarrow> string \<Rightarrow> SubdomainChecker
     \<Rightarrow> (exn + response) \<times> str_dict \<times> SubdomainChecker" where
  "try_request e cfg hst sch c =
     (case get_next_user_agent e cfg c of
        (Inl x, c1) \<Rightarrow> (Inl x, [], c1)
      | (Inr ua, c1) \<Rightarrow>
          (let hs = dict_update [(''User-Agent'', ua)] (custom_headers cfg);
               (out, c2) = do_get e (mk_request cfg (sch @ hst) hs (verify_ssl cfg)) c1
           in (out, hs, c2)))"

text \<open>The \<^verbatim>\<open>except\<close> clauses (lines 189 to 222), in their order.\<close>

fun except_clauses ::
  "env \<Rightarrow> ScanConfig \<Rightarrow> string \<Rightarrow> string \<Rightarrow> int \<Rightarrow> str_dict \<Rightarrow> exn \<Rightarrow> SubdomainChecker
     \<Rightarrow> (exn + ScanResult step) \<times> SubdomainChecker" where
  "except_clauses e cfg hst sch attempt hs SSLError c =
     (if verify_ssl cfg \<and> sch = ''https://'' then
        (case do_get e (mk_request cfg (sch @ hst) hs False) c of
           (Inr r, c1) \<Rightarrow>
             if should_include_status cfg (status_code r)
             then (Inr (Return (fallback_result e cfg hst (sch @ hst) r)), c1)
             else (Inr Continue, c1)
         | (Inl x, c1) \<Rightarrow> (Inr Continue, c1))
      else (Inr Continue, c))"
| "except_clauses e cfg hst sch attempt hs Timeout c =
     (if attempt < retries cfg
      then (Inr Continue, time_sleep (of_int (attempt + 1) / 2) c)
      else (Inr Continue, c))"
| "except_clauses e cfg hst sch attempt hs ConnectionError c = (Inr Continue, c)"
| "except_clauses e cfg hst sch attempt hs RequestException c = (Inr Continue, c)"
| "except_clauses e cfg hst sch attempt hs OtherException c = (Inr Continue, c)"
| "except_clauses e cfg hst sch attempt hs BaseExc c = (Inl BaseExc, c)"

text \<open>The body of the attempt loop (lines 122 to 222).\<close>

definition attempt_body ::
  "env \<Rightarrow> ScanConfig \<Rightarrow> string \<Rightarrow> string \<Rightarrow> int \<Rightarrow> SubdomainChecker
     \<Rightarrow> (exn + ScanResult step) \<times> SubdomainChecker" where
  "attempt_body e cfg hst sch attempt c =
     (case try_request e cfg hst sch c of
        (Inr r, hs, c1) \<Rightarrow>
          if should_include_status cfg (status_code r)
          then (Inr (Return (full_result e cfg hst sch (sch @ hst) r)), c1)
          else (Inr Continue, c1)
      | (Inl x, hs, c1) \<Rightarrow> except_clauses e cfg hst sch attempt hs x c1)"

text \<open>\<^verbatim>\<open>for attempt in range(self.config.retries + 1)\<close>, over the attempts left.\<close>

fun attempt_loop ::
  "env \<Rightarrow> ScanConfig \<Rightarrow> string \<Rightarrow> string \<Rightarrow> int list \<Rightarrow> SubdomainChecker
     \<Rightarrow> (exn + ScanResult option) \<times> SubdomainChecker" where
  "attempt_loop e cfg hst sch [] c = (Inr None, c)"
| "attempt_loop e cfg hst sch (a # as) c =
     (case attempt_body e cfg hst sch a c of
        (Inl x, c1) \<Rightarrow> (Inl x, c1)
      | (Inr (Return r), c1) \<Rightarrow> (Inr (Some r), c1)
      | (Inr Continue, c1) \<Rightarrow> attempt_loop e cfg hst sch as c1)"

text \<open>\<^verbatim>\<open>for scheme in schemes\<close>, over the schemes left.\<close>

fun scheme_loop ::
  "env \<Rightarrow> ScanConfig \<Rightarrow> string \<Rightarrow> string list \<Rightarrow> SubdomainChecker
     \<Rightarrow> (exn + ScanResult option) \<times> SubdomainChecker" where
  "scheme_loop e cfg hst [] c = (Inr None, c)"
| "scheme_loop e cfg hst (sch # schs) c =
     (case attempt_loop e cfg hst sch [0..retries cfg] c of
        (Inr None, c1) \<Rightarrow> scheme_loop e cfg hst schs c1
      | (Inr (Some r), c1) \<Rightarrow> (Inr (Some r), c1)
      | (Inl x, c1) \<Rightarrow> (Inl x, c1))"

definition schemes :: "ScanConfig \<Rightarrow> string list" where
  "schemes cfg =
     (if \<not> only_https cfg then [''http://''] else []) @
     (if \<not> only_http cfg then [''https://''] else [])"

definition check_host ::
  "env \<Rightarrow> ScanConfig \<Rightarrow> string \<Rightarrow> SubdomainChecker
     \<Rightarrow> (exn + ScanResult option) \<times> SubdomainChecker" where
  "check_host e cfg hst c = scheme_loop e cfg hst (schemes cfg) (rate_limit_wait cfg c)"

subsection \<open>run_checks: aggregation and the final sort\<close>

text \<open>\<^verbatim>\<open>d[k] = d.get(k, 0) + 1\<close>\<close>

definition incr :: "('k \<times> int) list \<Rightarrow> 'k \<Rightarrow> ('k \<times> int) list" where
  "incr d k = AList.update k (dict_get d k 0 + 1) d"

text \<open>
  What the loop over the completed futures does with a result that is not \<^verbatim>\<open>None\<close>
  (lines 246 to 266).
\<close>

definition record_result :: "ScanResult \<Rightarrow> SubdomainChecker \<Rightarrow> SubdomainChecker" where
  "record_result r c =
     (let s1 = (stats c)\<lparr>total_found := total_found (stats c) + 1\<rparr>;
          s2 = s1\<lparr>status_distribution := incr (status_distribution s1) (status r)\<rparr>;
          s3 = s2\<lparr>tech_distribution := foldl incr (tech_distribution s2) (technologies r)\<rparr>;
          s4 = (if cms r \<noteq> [] then s3\<lparr>cms_distribution := incr (cms_distribution s3) (cms r)\<rparr>
                else s3);
          s5 = (if waf r \<noteq> [] then s4\<lparr>waf_distribution := incr (waf_distribution s4) (waf r)\<rparr>
                else s4)
      in c\<lparr>results := results c @ [r], stats := s5\<rparr>)"

text \<open>
  The loop over \<^verbatim>\<open>as_completed\<close>. The worker threads are not modelled: the loop sees
  what \<^verbatim>\<open>future.result()\<close> gives for each host, in completion order, and
  \<^verbatim>\<open>future.result()\<close> raises again what \<^verbatim>\<open>check_host\<close> raised. The progress callback
  is left at its default \<^verbatim>\<open>None\<close>.
\<close>

fun collect ::
  "(exn + ScanResult option) list \<Rightarrow> SubdomainChecker \<Rightarrow> exn option \<times> SubdomainChecker" where
  "collect [] c = (None, c)"
| "collect (Inl x # fs) c = (Some x, c)"
| "collect (Inr None # fs) c = collect fs c"
| "collect (Inr (Some r) # fs) c = collect fs (record_result r c)"

text \<open>\<^verbatim>\<open>self.results.sort(key=lambda x: (x.status, x.url))\<close>: a stable sort.\<close>

definition sort_results :: "ScanResult list \<Rightarrow> ScanResult list" where
  "sort_results rs = sort_key (\<lambda>x. (status x, url x)) rs"

definition run_checks ::
  "string list \<Rightarrow> (exn + ScanResult option) list \<Rightarrow> rat \<Rightarrow> SubdomainChecker
     \<Rightarrow> (exn + ScanResult list) \<times> SubdomainChecker" where
  "run_checks hosts completed now c =
     (let c1 = c\<lparr>stats := (stats c)\<lparr>total_checked := int (length hosts)\<rparr>\<rparr>
      in case collect completed c1 of
           (Some x, c2) \<Rightarrow> (Inl x, c2)
         | (None, c2) \<Rightarrow>
             (let c3 = c2\<lparr>results := sort_results (results c2)\<rparr>;
                  c4 = c3\<lparr>stats := (stats c3)\<lparr>end_time := now\<rparr>\<rparr>
              in (Inr (results c4), c4)))"

subsection \<open>Reading traces\<close>

fun is_request :: "event \<Rightarrow> bool" where
  "is_request (Request rq) = True"
| "is_request ev = False"


text \<open>
  A probe attempt is a request sent with the configured verification: the fallback of the
  \<^verbatim>\<open>SSLError\<close> clause is only made when \<^verbatim>\<open>verify_ssl\<close> is set, and is sent without.
\<close>

fun is_probe :: "ScanConfig \<Rightarrow> event \<Rightarrow> bool" where
  "is_probe cfg (Request rq) = (req_verify rq = verify_ssl cfg)"
| "is_probe cfg ev = False"


subsection \<open>Configurations and mock servers\<close>

text \<open>The defaults of \<^verbatim>\<open>ScanConfig\<close>.\<close>

definition default_config :: ScanConfig where
  "default_config =
     \<lparr> timeout = 5, max_workers = 50,
       match_codes = [200, 201, 202, 204, 301, 302, 307, 308, 401, 403],
       verify_ssl = True, rate_limit = None, retries = 1, follow_redirects = True,
       tech_detection = False, detect_waf = False, detect_cms = False, detect_cdn = False,
       extract_headers = False, extract_cookies = False, find_forms = False,
       find_logins = False, random_user_agent = True, custom_user_agent = None,
       custom_headers = [], proxy = None, exclude_codes = [], include_codes = [],
       only_https = False, only_http = False \<rparr>"

definition mock_response :: "string \<Rightarrow> int \<Rightarrow> response" where
  "mock_response u s =
     \<lparr> resp_url = u, status_code = s, resp_text = [], content = [],
       resp_headers = [], resp_cookies = [], elapsed = 0 \<rparr>"

definition mock_env :: "(request \<Rightarrow> nat \<Rightarrow> exn + response) \<Rightarrow> env" where
  "mock_env net =
     \<lparr> session_get = net,
       get_random_user_agent = (\<lambda>k. ''agent''),
       get_ip_address = (\<lambda>h. None),
       extract_title = (\<lambda>t. []),
       detect_technologies = (\<lambda>t hs. []),
       detect_cms_fn = (\<lambda>t hs. []),
       detect_waf_fn = (\<lambda>hs. []),
       detect_cdn_fn = (\<lambda>hs. []),
       detect_forms = (\<lambda>t. False),
       detect_login_forms = (\<lambda>t. False) \<rparr>"

text \<open>A server that refuses every connection.\<close>

definition refusing :: "request \<Rightarrow> nat \<Rightarrow> exn + response" where
  "refusing rq k = Inl ConnectionError"



text \<open>A server whose certificate does not verify and that answers 200.\<close>

definition bad_certificate :: "request \<Rightarrow> nat \<Rightarrow> exn + response" where
  "bad_certificate rq k =
     (if req_verify rq then Inl SSLError else Inr (mock_response (req_url rq) 200))"

definition mock_result :: "string \<Rightarrow> string \<Rightarrow> int \<Rightarrow> ScanResult" where
  "mock_result h u s =
     \<lparr> url = u, host = h, status = s, scheme = ''https'', title = [],
       content_length = 0, server = [], ip_address = [], response_time = 0,
       technologies = [], redirect_chain = [], headers = [], cookies = [],
       has_form = False, has_login = False, is_wordpress = False,
       cms = [], waf = [], cdn = [] \<rparr>"

section \<open>Properties\<close>

subsection \<open>The status filter\<close>

text \<open>
  C1. The status filter excludes a status that is in \<open>exclude_codes\<close>; otherwise it
  excludes a status that is not in a non-empty \<open>include_codes\<close>; otherwise it includes
  exactly the statuses in \<open>match_codes\<close>. In particular a status in \<open>exclude_codes\<close>
  is rejected even when it is in \<open>match_codes\<close> too.
\<close>

theorem should_include_status_order:
  "should_include_status cfg st =
     (if st \<in> set (exclude_codes cfg) then False
      else if include_codes cfg \<noteq> [] \<and> st \<notin> set (include_codes cfg) then False
      else st \<in> set (match_codes cfg))
   \<and> (st \<in> set (exclude_codes cfg) \<longrightarrow> \<not> should_include_status cfg st)"
  by (auto simp: should_include_status_def)

theorem should_include_status_order_witness:
  "200 \<in> set (exclude_codes (default_config\<lparr>exclude_codes := [200]\<rparr>))
   \<and> 200 \<in> set (match_codes (default_config\<lparr>exclude_codes := [200]\<rparr>))
   \<and> \<not> should_include_status (default_config\<lparr>exclude_codes := [200]\<rparr>) 200"
  using should_include_status_order [of "default_config\<lparr>exclude_codes := [200]\<rparr>" 200]
  by (simp add: default_config_def)

subsection \<open>Traces of check_host\<close>

lemma get_next_user_agent_keeps:
  "get_next_user_agent e cfg c = (out, c1) \<Longrightarrow> trace c1 = trace c \<and> calls c1 = calls c"
  by (auto simp: get_next_user_agent_def split: option.splits if_splits)

lemma try_request_cases:
  assumes "try_request e cfg hst sch c = (out, hs, c1)"
  shows "(out = Inl OtherException \<and> trace c1 = trace c \<and> calls c1 = calls c)
       \<or> (trace c1 = trace c @ [Request (mk_request cfg (sch @ hst) hs (verify_ssl cfg))]
          \<and> calls c1 = Suc (calls c)
          \<and> (\<exists>k. out = session_get e (mk_request cfg (sch @ hst) hs (verify_ssl cfg)) k))"
proof (cases "get_next_user_agent e cfg c")
  case (Pair r c0)
  note k = get_next_user_agent_keeps [OF Pair]
  show ?thesis
  proof (cases r)
    case (Inl x)
    with Pair have "x = OtherException"
      by (auto simp: get_next_user_agent_def split: option.splits if_splits)
    with Pair Inl assms k show ?thesis by (simp add: try_request_def)
  next
    case (Inr ua)
    with Pair assms k show ?thesis
      by (auto simp: try_request_def do_get_def Let_def)
  qed
qed

lemma except_clauses_trace:
  assumes "except_clauses e cfg hst sch a hs x c = (out, c1)"
  shows "\<exists>evs. trace c1 = trace c @ evs \<and> RateLimitWait \<notin> set evs
           \<and> length (filter (is_probe cfg) evs) = 0"
  using assms
  by (cases x) (auto simp: do_get_def time_sleep_def mk_request_def split: if_splits prod.splits sum.splits)

lemma attempt_body_trace:
  assumes "attempt_body e cfg hst sch a c = (out, c1)"
  shows "\<exists>evs. trace c1 = trace c @ evs \<and> RateLimitWait \<notin> set evs
           \<and> length (filter (is_probe cfg) evs) \<le> 1"
proof (cases "try_request e cfg hst sch c")
  case (fields r hs c0)
  from try_request_cases [OF fields]
  obtain evs0 where t0: "trace c0 = trace c @ evs0" "RateLimitWait \<notin> set evs0"
      "length (filter (is_probe cfg) evs0) \<le> 1"
    by (auto simp: mk_request_def)
  show ?thesis
  proof (cases r)
    case (Inr resp)
    with fields assms have "c1 = c0"
      by (auto simp: attempt_body_def split: if_splits)
    with t0 show ?thesis by auto
  next
    case (Inl x)
    with fields assms have "except_clauses e cfg hst sch a hs x c0 = (out, c1)"
      by (simp add: attempt_body_def)
    from except_clauses_trace [OF this] t0 show ?thesis by auto
  qed
qed

lemma attempt_loop_trace:
  "attempt_loop e cfg hst sch as c = (out, c1) \<Longrightarrow>
     \<exists>evs. trace c1 = trace c @ evs \<and> RateLimitWait \<notin> set evs
           \<and> length (filter (is_probe cfg) evs) \<le> length as"
proof (induction as arbitrary: c)
  case Nil
  then show ?case by simp
next
  case (Cons a as)
  obtain o1 c0 where b: "attempt_body e cfg hst sch a c = (o1, c0)"
    by (cases "attempt_body e cfg hst sch a c")
  from attempt_body_trace [OF b]
  obtain evs0 where t0: "trace c0 = trace c @ evs0" "RateLimitWait \<notin> set evs0"
      "length (filter (is_probe cfg) evs0) \<le> 1"
    by blast
  show ?case
  proof (cases "o1 = Inr Continue")
    case True
    with b Cons.prems have "attempt_loop e cfg hst sch as c0 = (out, c1)" by simp
    from Cons.IH [OF this] t0 show ?thesis by auto
  next
    case False
    with b Cons.prems have "c1 = c0"
      by (auto split: sum.splits step.splits)
    with t0 show ?thesis by auto
  qed
qed

lemma scheme_loop_trace:
  "scheme_loop e cfg hst schs c = (out, c1) \<Longrightarrow>
     \<exists>evs. trace c1 = trace c @ evs \<and> RateLimitWait \<notin> set evs"
proof (induction schs arbitrary: c)
  case Nil
  then show ?case by simp
next
  case (Cons sch schs)
  obtain o1 c0 where b: "attempt_loop e cfg hst sch [0..retries cfg] c = (o1, c0)"
    by (cases "attempt_loop e cfg hst sch [0..retries cfg] c")
  from attempt_loop_trace [OF b]
  obtain evs0 where t0: "trace c0 = trace c @ evs0" "RateLimitWait \<notin> set evs0"
    by blast
  show ?case
  proof (cases "o1 = Inr None")
    case True
    with b Cons.prems have "scheme_loop e cfg hst schs c0 = (out, c1)" by simp
    from Cons.IH [OF this] t0 show ?thesis by auto
  next
    case False
    with b Cons.prems have "c1 = c0"
      by (auto split: sum.splits option.splits)
    with t0 show ?thesis by auto
  qed
qed

text \<open>
  C2, as stated, fails: with a rate limit of 10 per second, the default single retry and a
  server that refuses every connection, one call of \<open>check_host\<close> makes four probe
  attempts and passes the rate limiter gate once.
\<close>

theorem check_host_gate_per_attempt_counterexample:
  "count_list (trace (snd (check_host (mock_env refusing)
       (default_config\<lparr>rate_limit := Some 10\<rparr>) ''a.test''
       (init_checker (mock_env refusing) 0)))) RateLimitWait = 1
   \<and> length (filter (is_probe (default_config\<lparr>rate_limit := Some 10\<rparr>))
       (trace (snd (check_host (mock_env refusing)
          (default_config\<lparr>rate_limit := Some 10\<rparr>) ''a.test''
          (init_checker (mock_env refusing) 0))))) = 4"
  by code_simp

text \<open>
  C2, amended. With a rate limit configured, \<open>check_host\<close> passes the rate limiter gate
  exactly once per call, before the first probe attempt, and never again in that call.
\<close>

theorem check_host_gate_once:
  assumes "rate_limit cfg = Some r" and "r \<noteq> 0"
  shows "\<exists>evs. trace (snd (check_host e cfg hst c)) = trace c @ RateLimitWait # evs
           \<and> RateLimitWait \<notin> set evs"
proof -
  obtain out c1 where s: "scheme_loop e cfg hst (schemes cfg) (rate_limit_wait cfg c) = (out, c1)"
    by (cases "scheme_loop e cfg hst (schemes cfg) (rate_limit_wait cfg c)")
  from scheme_loop_trace [OF s] assms s show ?thesis
    by (auto simp: check_host_def rate_limit_wait_def)
qed

theorem check_host_gate_once_witness:
  "rate_limit (default_config\<lparr>rate_limit := Some 10\<rparr>) = Some 10 \<and> (10::int) \<noteq> 0
   \<and> (\<exists>evs. trace (snd (check_host (mock_env refusing)
          (default_config\<lparr>rate_limit := Some 10\<rparr>) ''a.test''
          (init_checker (mock_env refusing) 0))) = [] @ RateLimitWait # evs
        \<and> RateLimitWait \<notin> set evs)"
proof -
  have h: "rate_limit (default_config\<lparr>rate_limit := Some 10\<rparr>) = Some 10"
    by (simp add: default_config_def)
  have t: "trace (init_checker (mock_env refusing) 0) = []"
    by (simp add: init_checker_def)
  from check_host_gate_once [OF h, of "mock_env refusing" "''a.test''"
      "init_checker (mock_env refusing) 0"] h t
  show ?thesis by simp
qed











lemma scheme_of_http: "str_replace ''://'' [] ''http://'' = ''http''"
  by (simp add: str_replace.simps)

lemma attempt_body_Return:
  assumes "attempt_body e cfg hst sch a c = (Inr (Return r), c1)"
  shows "should_include_status cfg (status r)
       \<and> (scheme r = str_replace ''://'' [] sch \<or> sch = ''https://'' \<and> scheme r = ''https'')"
proof (cases "try_request e cfg hst sch c")
  case (fields out hs c0)
  show ?thesis
  proof (cases out)
    case (Inr resp)
    with fields assms show ?thesis
      by (auto simp: attempt_body_def full_result_def split: if_splits)
  next
    case (Inl x)
    with fields assms have "except_clauses e cfg hst sch a hs x c0 = (Inr (Return r), c1)"
      by (simp add: attempt_body_def)
    then show ?thesis
      by (cases x) (auto simp: fallback_result_def split: if_splits prod.splits sum.splits)
  qed
qed

lemma attempt_loop_Some:
  "attempt_loop e cfg hst sch as c = (Inr (Some r), c1) \<Longrightarrow>
     should_include_status cfg (status r)
     \<and> (scheme r = str_replace ''://'' [] sch \<or> sch = ''https://'' \<and> scheme r = ''https'')"
proof (induction as arbitrary: c)
  case Nil
  then show ?case by simp
next
  case (Cons a as)
  obtain o1 c0 where b: "attempt_body e cfg hst sch a c = (o1, c0)"
    by (cases "attempt_body e cfg hst sch a c")
  show ?case
  proof (cases o1)
    case (Inl x)
    with b Cons.prems show ?thesis by simp
  next
    case (Inr s)
    show ?thesis
    proof (cases s)
      case (Return r')
      with Inr b Cons.prems have "r' = r" by simp
      with Return Inr b attempt_body_Return show ?thesis by blast
    next
      case Continue
      with Inr b Cons.prems have "attempt_loop e cfg hst sch as c0 = (Inr (Some r), c1)"
        by simp
      from Cons.IH [OF this] show ?thesis .
    qed
  qed
qed






subsection \<open>No scheme, no error\<close>














subsection \<open>The fallback without verification\<close>

text \<open>
  C9. When the request of an https attempt with verification enabled fails with an
  \<^verbatim>\<open>SSLError\<close>, exactly one more request is made, with verification disabled; its
  status goes through the status filter, a result is returned only if it passes, and that
  result has scheme https.
\<close>

theorem ssl_fallback_once:
  assumes "verify_ssl cfg"
    and "try_request e cfg hst ''https://'' c = (Inl SSLError, hs, c1)"
  shows "trace (snd (attempt_body e cfg hst ''https://'' a c))
           = trace c1 @ [Request (mk_request cfg (''https://'' @ hst) hs False)]
       \<and> calls (snd (attempt_body e cfg hst ''https://'' a c)) = calls c1 + 1
       \<and> \<not> req_verify (mk_request cfg (''https://'' @ hst) hs False)
       \<and> fst (attempt_body e cfg hst ''https://'' a c)
           = (case session_get e (mk_request cfg (''https://'' @ hst) hs False) (calls c1) of
                Inr resp \<Rightarrow>
                  if should_include_status cfg (status_code resp)
                  then Inr (Return (fallback_result e cfg hst (''https://'' @ hst) resp))
                  else Inr Continue
              | Inl x \<Rightarrow> Inr Continue)
       \<and> (\<forall>r. fst (attempt_body e cfg hst ''https://'' a c) = Inr (Return r) \<longrightarrow>
             scheme r = ''https'' \<and> should_include_status cfg (status r)
             \<and> (\<exists>resp. session_get e (mk_request cfg (''https://'' @ hst) hs False) (calls c1)
                          = Inr resp
                        \<and> status r = status_code resp))"
  using assms
  by (auto simp: attempt_body_def do_get_def mk_request_def fallback_result_def
      split: sum.splits)

theorem ssl_fallback_once_witness:
  "verify_ssl default_config
   \<and> fst (try_request (mock_env bad_certificate) default_config ''a.test'' ''https://''
        (init_checker (mock_env bad_certificate) 0)) = Inl SSLError
   \<and> map_sum id (case_step (\<lambda>r. Some (scheme r, status r)) None)
        (fst (attempt_body (mock_env bad_certificate) default_config ''a.test'' ''https://'' 0
           (init_checker (mock_env bad_certificate) 0)))
       = Inr (Some (''https'', 200))
   \<and> length (filter is_request
        (trace (snd (attempt_body (mock_env bad_certificate) default_config ''a.test''
           ''https://'' 0 (init_checker (mock_env bad_certificate) 0))))) = 2"
proof -
  let ?e = "mock_env bad_certificate"
  let ?c = "init_checker ?e 0"
  let ?t = "try_request ?e default_config ''a.test'' ''https://'' ?c"
  have v: "verify_ssl default_config" by (simp add: default_config_def)
  have h: "?t = (Inl SSLError, fst (snd ?t), snd (snd ?t))"
    by (simp add: try_request_def get_next_user_agent_def default_config_def do_get_def
        mock_env_def bad_certificate_def init_checker_def mk_request_def Let_def)
  have t: "length (filter is_request (trace (snd (snd ?t)))) = 1"
    by (simp add: try_request_def get_next_user_agent_def default_config_def do_get_def
        mock_env_def init_checker_def Let_def)
  have s: "session_get ?e (mk_request default_config (''https://'' @ ''a.test'') (fst (snd ?t)) False)
             (calls (snd (snd ?t))) = Inr (mock_response ''https://a.test'' 200)"
    by (simp add: mock_env_def bad_certificate_def mk_request_def)
  have i: "should_include_status default_config 200"
    by (simp add: should_include_status_def default_config_def)
  have k: "fst ?t = Inl SSLError"
    by (subst h) simp
  from ssl_fallback_once [OF v h, of 0] k v t s i show ?thesis
    by (simp add: fallback_result_def mock_response_def)
qed

subsection \<open>Aggregation\<close>

lemma sum_update_present:
  "distinct (map fst d) \<Longrightarrow> map_of d k = Some v \<Longrightarrow>
     sum_list (map snd (AList.update k w d)) = sum_list (map snd d) - v + (w::int)"
proof (induction d)
  case Nil
  then show ?case by simp
next
  case (Cons p d)
  obtain k' v' where p: "p = (k', v')" by (cases p)
  show ?case
  proof (cases "k' = k")
    case True
    with p Cons.prems show ?thesis by simp
  next
    case False
    with p Cons show ?thesis by simp
  qed
qed

lemma sum_update_absent:
  "map_of d k = None \<Longrightarrow>
     sum_list (map snd (AList.update k w d)) = sum_list (map snd d) + (w::int)"
  by (induction d) (auto split: if_splits)

lemma incr_sum:
  assumes "distinct (map fst d)"
  shows "sum_list (map snd (incr d k)) = sum_list (map snd d) + 1"
proof (cases "map_of d k")
  case None
  then show ?thesis by (simp add: incr_def dict_get_def sum_update_absent)
next
  case (Some v)
  with assms show ?thesis by (simp add: incr_def dict_get_def sum_update_present)
qed

lemma incr_distinct: "distinct (map fst d) \<Longrightarrow> distinct (map fst (incr d k))"
  by (simp add: incr_def distinct_update)

lemma record_result_invariant:
  assumes "total_found (stats c) = int (length (results c))"
    and "distinct (map fst (status_distribution (stats c)))"
    and "sum_list (map snd (status_distribution (stats c))) = total_found (stats c)"
  shows "total_found (stats (record_result r c)) = int (length (results (record_result r c)))
       \<and> distinct (map fst (status_distribution (stats (record_result r c))))
       \<and> sum_list (map snd (status_distribution (stats (record_result r c))))
           = total_found (stats (record_result r c))"
  using assms by (simp add: record_result_def Let_def incr_sum incr_distinct)

lemma collect_invariant:
  "collect fs c = (out, c') \<Longrightarrow>
   total_found (stats c) = int (length (results c)) \<Longrightarrow>
   distinct (map fst (status_distribution (stats c))) \<Longrightarrow>
   sum_list (map snd (status_distribution (stats c))) = total_found (stats c) \<Longrightarrow>
     total_found (stats c') = int (length (results c'))
     \<and> distinct (map fst (status_distribution (stats c')))
     \<and> sum_list (map snd (status_distribution (stats c'))) = total_found (stats c')"
proof (induction fs c rule: collect.induct)
  case (1 c)
  then show ?case by simp
next
  case (2 x fs c)
  then show ?case by simp
next
  case (3 fs c)
  then show ?case by simp
next
  case (4 r fs c)
  from 4(2) have "collect fs (record_result r c) = (out, c')" by simp
  moreover note record_result_invariant [OF 4(3) 4(4) 4(5), of r]
  ultimately show ?case using 4(1) by blast
qed

text \<open>
  C10. After \<open>run_checks\<close> has completed on a checker whose counters agree (a fresh one
  does), \<open>total_found\<close> is the length of the returned list and the counts of
  \<open>status_distribution\<close> add up to \<open>total_found\<close>.
\<close>

theorem run_checks_aggregation:
  assumes "run_checks hosts completed now c = (Inr rs, c')"
    and "total_found (stats c) = int (length (results c))"
    and "distinct (map fst (status_distribution (stats c)))"
    and "sum_list (map snd (status_distribution (stats c))) = total_found (stats c)"
  shows "rs = results c'
       \<and> total_found (stats c') = int (length rs)
       \<and> sum_list (map snd (status_distribution (stats c'))) = total_found (stats c')"
proof -
  let ?c1 = "c\<lparr>stats := (stats c)\<lparr>total_checked := int (length hosts)\<rparr>\<rparr>"
  obtain out c2 where col: "collect completed ?c1 = (out, c2)"
    by (cases "collect completed ?c1")
  from assms(2-4) have
    "total_found (stats ?c1) = int (length (results ?c1))"
    "distinct (map fst (status_distribution (stats ?c1)))"
    "sum_list (map snd (status_distribution (stats ?c1))) = total_found (stats ?c1)"
    by simp_all
  from collect_invariant [OF col this]
  have inv: "total_found (stats c2) = int (length (results c2))"
    "distinct (map fst (status_distribution (stats c2)))"
    "sum_list (map snd (status_distribution (stats c2))) = total_found (stats c2)"
    by simp_all
  from assms(1) col have o: "out = None"
    by (cases out) (simp_all add: run_checks_def Let_def)
  with assms(1) col have
    "c' = c2\<lparr>results := sort_results (results c2), stats := (stats c2)\<lparr>end_time := now\<rparr>\<rparr>"
    "rs = sort_results (results c2)"
    by (auto simp: run_checks_def Let_def)
  with inv show ?thesis by (simp add: sort_results_def)
qed

theorem run_checks_aggregation_witness:
  "total_found (stats (snd (run_checks [''a.test'', ''b.test'', ''c.test'']
      [Inr (Some (mock_result ''b.test'' ''https://b.test'' 200)), Inr None,
       Inr (Some (mock_result ''a.test'' ''https://a.test'' 200))] 1
      (init_checker (mock_env refusing) 0)))) = 2
   \<and> status_distribution (stats (snd (run_checks [''a.test'', ''b.test'', ''c.test'']
      [Inr (Some (mock_result ''b.test'' ''https://b.test'' 200)), Inr None,
       Inr (Some (mock_result ''a.test'' ''https://a.test'' 200))] 1
      (init_checker (mock_env refusing) 0)))) = [(200, 2)]
   \<and> fst (run_checks [''a.test'', ''b.test'', ''c.test'']
      [Inr (Some (mock_result ''b.test'' ''https://b.test'' 200)), Inr None,
       Inr (Some (mock_result ''a.test'' ''https://a.test'' 200))] 1
      (init_checker (mock_env refusing) 0))
     = Inr [mock_result ''a.test'' ''https://a.test'' 200,
            mock_result ''b.test'' ''https://b.test'' 200]"
proof -
  let ?c = "init_checker (mock_env refusing) 0"
  let ?run = "run_checks [''a.test'', ''b.test'', ''c.test'']
      [Inr (Some (mock_result ''b.test'' ''https://b.test'' 200)), Inr None,
       Inr (Some (mock_result ''a.test'' ''https://a.test'' 200))] 1 ?c"
  have r: "fst ?run = Inr [mock_result ''a.test'' ''https://a.test'' 200,
            mock_result ''b.test'' ''https://b.test'' 200]"
    by (simp add: run_checks_def Let_def record_result_def sort_results_def mock_result_def
        init_checker_def less_eq_prod_def list_le_def list_less_def lexord_lex lex_conv)
  have d: "status_distribution (stats (snd ?run)) = [(200, 2)]"
    by (simp add: run_checks_def Let_def record_result_def init_checker_def incr_def
        dict_get_def mock_result_def)
  have e: "?run = (Inr [mock_result ''a.test'' ''https://a.test'' 200,
            mock_result ''b.test'' ''https://b.test'' 200], snd ?run)"
    using r by (metis prod.collapse)
  have i: "total_found (stats ?c) = int (length (results ?c))"
    "distinct (map fst (status_distribution (stats ?c)))"
    "sum_list (map snd (status_distribution (stats ?c))) = total_found (stats ?c)"
    by (simp_all add: init_checker_def)
  from run_checks_aggregation [OF e i] r d show ?thesis by simp
qed

subsection \<open>The final sort\<close>








end
